theory Spec2Isabelle
  imports Main "HOL-Library.Word"
begin

section \<open>Strings of the source language\<close>

text \<open>
  A TypeScript string is a sequence of UTF-16 code units, and \<open>.length\<close> counts code
  units. String literals of the source are written through \<open>lit\<close>. The operator
  \<open>a || b\<close> on an optional string yields \<open>b\<close> when \<open>a\<close> is \<open>undefined\<close> or the
  empty string (both are falsy) and \<open>a\<close> otherwise.
\<close>

type_synonym code_unit = "16 word"

type_synonym js_string = "code_unit list"

definition lit :: "string \<Rightarrow> js_string" where
  "lit s = map (\<lambda>c. of_nat (of_char c)) s"

definition js_or :: "js_string option \<Rightarrow> js_string \<Rightarrow> js_string" where
  "js_or a b = (case a of None \<Rightarrow> b | Some s \<Rightarrow> if s = [] then b else s)"

section \<open>Data model\<close>

text \<open>
  \<open>ProcessingState\<close>, \<open>InterviewResult\<close> and \<open>InterviewTranscriptRequest\<close> are imported by
  the hook from \<open>lib/types\<close>; their fields are the ones the hook reads and writes. The
  types of \<open>key_named_entities\<close> and \<open>processing_time\<close> are parameters (\<open>'e\<close>, \<open>'n\<close>): the
  hook only copies them. Fields of the request and of the raw response carry the
  prefixes \<open>req_\<close> and \<open>res_\<close>, since a field name is a constant of the theory.
\<close>

record ProcessingState =
  isLoading :: bool
  progress :: int
  currentTask :: js_string
  error :: "js_string option"

record ('e, 'n) InterviewResult =
  summary :: js_string
  highlights :: "js_string list"
  lowlights :: "js_string list"
  key_named_entities :: 'e
  processing_time :: "'n option"
  model :: js_string

record InterviewTranscriptRequest =
  req_transcript :: js_string
  req_model :: js_string

record ('e, 'n) InterviewResponse =
  res_summary :: js_string
  res_highlights :: "js_string list"
  res_lowlights :: "js_string list"
  res_key_named_entities :: 'e
  res_processing_time :: "'n option"
  res_model :: js_string

text \<open>One entry of the table \<open>progressSteps\<close>: \<open>{ progress, task }\<close>.\<close>

record ProgressStep =
  step_progress :: int
  task :: js_string

section \<open>The hook \<open>useInterviewProcessor\<close>\<close>

text \<open>
  The state of the hook: the two \<open>useState\<close> slots, and the timers of the event loop
  that \<open>setInterval\<close> has created and \<open>clearInterval\<close> has not yet removed.
\<close>

record ('e, 'n) hook =
  result :: "('e, 'n) InterviewResult option"
  processingState :: ProcessingState
  intervals :: "nat list"
  nextInterval :: nat

definition useInterviewProcessor :: "('e, 'n) hook" where
  "useInterviewProcessor =
     \<lparr> result = None,
       processingState = \<lparr> isLoading = False, progress = 0, currentTask = lit '''', error = None \<rparr>,
       intervals = [],
       nextInterval = 0 \<rparr>"

definition setInterval :: "('e, 'n) hook \<Rightarrow> ('e, 'n) hook \<times> nat" where
  "setInterval h =
     (h\<lparr> intervals := nextInterval h # intervals h, nextInterval := Suc (nextInterval h) \<rparr>,
      nextInterval h)"

definition clearInterval :: "nat \<Rightarrow> ('e, 'n) hook \<Rightarrow> ('e, 'n) hook" where
  "clearInterval i h = h\<lparr> intervals := removeAll i (intervals h) \<rparr>"

definition progressSteps :: "ProgressStep list" where
  "progressSteps =
     [ \<lparr> step_progress = 10, task = lit ''Validating transcript...'' \<rparr>,
       \<lparr> step_progress = 25, task = lit ''Preprocessing text...'' \<rparr>,
       \<lparr> step_progress = 40, task = lit ''Analyzing content with AI...'' \<rparr>,
       \<lparr> step_progress = 60, task = lit ''Extracting highlights and lowlights...'' \<rparr>,
       \<lparr> step_progress = 80, task = lit ''Identifying key information...'' \<rparr>,
       \<lparr> step_progress = 95, task = lit ''Finalizing results...'' \<rparr> ]"

text \<open>The state updater that every tick of the progress timer hands to \<open>setProcessingState\<close>.\<close>

definition progressTick :: "ProcessingState \<Rightarrow> ProcessingState" where
  "progressTick prev =
     (case List.find (\<lambda>step. step_progress step > progress prev) progressSteps of
        Some nextStep \<Rightarrow> prev\<lparr> progress := step_progress nextStep, currentTask := task nextStep \<rparr>
      | None \<Rightarrow> prev)"

text \<open>The timer \<open>i\<close> comes due: its callback runs if the timer still exists.\<close>

definition fireInterval :: "nat \<Rightarrow> ('e, 'n) hook \<Rightarrow> ('e, 'n) hook" where
  "fireInterval i h =
     (if i \<in> set (intervals h)
      then h\<lparr> processingState := progressTick (processingState h) \<rparr>
      else h)"

text \<open>
  How the awaited call \<open>apiClient.processInterview(request)\<close> settles: it resolves with a
  response, or rejects with an error object whose \<open>message\<close> may be missing.
\<close>

datatype ('e, 'n) settlement =
  Resolves "('e, 'n) InterviewResponse"
| Rejects "js_string option"

text \<open>How the promise returned by \<open>processInterview\<close> itself settles.\<close>

datatype completion = Fulfilled | Rethrown "js_string option"

definition defaultModel :: js_string where
  "defaultModel = lit ''anthropic/claude-3.5-sonnet''"

text \<open>
  \<open>processInterview\<close> runs in two parts, split at its only \<open>await\<close>. The first part runs
  up to the call of the API client and yields the request that is sent and the timer
  it has started; the second part runs when the call settles.
\<close>

definition processInterview_begin ::
  "js_string \<Rightarrow> js_string option \<Rightarrow> ('e, 'n) hook \<Rightarrow> ('e, 'n) hook \<times> nat \<times> InterviewTranscriptRequest"
where
  "processInterview_begin transcript model_arg h =
     (let h1 = h\<lparr> result := None,
                  processingState :=
                    \<lparr> isLoading = True, progress = 0,
                      currentTask = lit ''Validating transcript...'', error = None \<rparr> \<rparr>;
          (h2, progressInterval) = setInterval h1;
          request = \<lparr> req_transcript = transcript, req_model = js_or model_arg defaultModel \<rparr>
      in (h2, progressInterval, request))"

definition processInterview_settle ::
  "nat \<Rightarrow> ('e, 'n) settlement \<Rightarrow> ('e, 'n) hook \<Rightarrow> ('e, 'n) hook \<times> completion"
where
  "processInterview_settle progressInterval outcome h =
     (case outcome of
        Resolves response \<Rightarrow>
          (let h1 = clearInterval progressInterval h;
               interviewResult =
                 \<lparr> summary = res_summary response,
                   highlights = res_highlights response,
                   lowlights = res_lowlights response,
                   key_named_entities = res_key_named_entities response,
                   processing_time = res_processing_time response,
                   model = res_model response \<rparr>
           in (h1\<lparr> result := Some interviewResult,
                   processingState :=
                     \<lparr> isLoading = False, progress = 100,
                       currentTask = lit ''Complete'', error = None \<rparr> \<rparr>,
               Fulfilled))
      | Rejects message \<Rightarrow>
          (h\<lparr> processingState :=
                \<lparr> isLoading = False, progress = 0, currentTask = lit '''',
                  error = Some (js_or message (lit ''An unexpected error occurred'')) \<rparr> \<rparr>,
           Fulfilled))"

definition reset :: "('e, 'n) hook \<Rightarrow> ('e, 'n) hook" where
  "reset h =
     h\<lparr> result := None,
        processingState :=
          \<lparr> isLoading = False, progress = 0, currentTask = lit '''', error = None \<rparr> \<rparr>"

section \<open>The form \<open>InterviewForm\<close>\<close>

record ValidationError =
  field :: js_string
  message :: js_string

text \<open>The state slots of the form component.\<close>

record form =
  transcript :: js_string
  selectedModel :: js_string
  validationErrors :: "ValidationError list"
  isValidating :: bool
  hasInteracted :: bool

text \<open>
  The code units that \<open>String.prototype.trim\<close> strips: the white space and line
  terminator code points of ECMAScript.
\<close>

definition is_whitespace :: "code_unit \<Rightarrow> bool" where
  "is_whitespace c \<longleftrightarrow>
     c \<in> set [0x0009, 0x000A, 0x000B, 0x000C, 0x000D, 0x0020, 0x00A0, 0x1680,
               0x2000, 0x2001, 0x2002, 0x2003, 0x2004, 0x2005, 0x2006, 0x2007,
               0x2008, 0x2009, 0x200A, 0x2028, 0x2029, 0x202F, 0x205F, 0x3000, 0xFEFF]"

definition trim :: "js_string \<Rightarrow> js_string" where
  "trim s = rev (dropWhile is_whitespace (rev (dropWhile is_whitespace s)))"

text \<open>Text without content: every code unit is white space.\<close>

definition whitespace_only :: "js_string \<Rightarrow> bool" where
  "whitespace_only text \<longleftrightarrow> list_all is_whitespace text"

text \<open>A finding for the field \<open>transcript\<close>, as the one the form itself builds.\<close>

definition finding :: "js_string \<Rightarrow> ValidationError" where
  "finding msg = \<lparr> field = lit ''transcript'', message = msg \<rparr>"

text \<open>
  Modelled from the spec: \<open>validateTranscript\<close> of \<open>lib/utils\<close> is not among the sources;
  the form only imports and calls it. The spec gives three rules, all evaluated, none
  short-circuiting: empty or whitespace-only text yields the finding
  \<open>Transcript is required\<close>; a length below 50 yields a "too short" finding; a length
  above 50,000 yields a "too long" finding. The wording of the last two messages is
  not given, so both are parameters.
\<close>

definition validateTranscript :: "js_string \<Rightarrow> js_string \<Rightarrow> js_string \<Rightarrow> ValidationError list" where
  "validateTranscript tooShort tooLong text =
     (if text = [] \<or> whitespace_only text then [finding (lit ''Transcript is required'')] else []) @
     (if length text < 50 then [finding tooShort] else []) @
     (if length text > 50000 then [finding tooLong] else [])"

text \<open>
  \<open>handleSubmit\<close>, with the imported validator as a parameter. It returns the new form
  state and the call of \<open>onSubmit\<close> it makes, if any, with that call's arguments.
\<close>

definition handleSubmit ::
  "(js_string \<Rightarrow> ValidationError list) \<Rightarrow> bool \<Rightarrow> form \<Rightarrow> form \<times> (js_string \<times> js_string) option"
where
  "handleSubmit validate isLoading_prop f =
     (let f1 = (if \<not> hasInteracted f then f\<lparr> hasInteracted := True \<rparr> else f);
          errors = validate (transcript f1);
          f2 = f1\<lparr> validationErrors := errors \<rparr>
      in if length errors = 0 \<and> \<not> isLoading_prop
         then (f2, Some (transcript f2, selectedModel f2))
         else (f2, None))"

definition isFormValid :: "form \<Rightarrow> bool" where
  "isFormValid f \<longleftrightarrow> length (validationErrors f) = 0 \<and> length (trim (transcript f)) > 0"

text \<open>The \<open>disabled\<close> attribute of the submit button.\<close>

definition submitDisabled :: "bool \<Rightarrow> form \<Rightarrow> bool" where
  "submitDisabled isLoading_prop f \<longleftrightarrow> \<not> isFormValid f \<or> isLoading_prop \<or> isValidating f"

section \<open>The page \<open>Home\<close>\<close>

text \<open>
  The page owns one hook and hands \<open>processInterview\<close> and \<open>isLoading\<close> to the form;
  the form is rendered from the current state of the hook, so the \<open>isLoading\<close> that
  \<open>handleSubmit\<close> reads is the one of the processing state.
  Its state is the state of the hook together with the calls of the API client that
  have not settled yet; each of them remembers the timer that its continuation
  holds in \<open>progressInterval\<close>.
\<close>

record ('e, 'n) home =
  hookState :: "('e, 'n) hook"
  pending :: "(nat \<times> InterviewTranscriptRequest) list"

definition Home :: "('e, 'n) home" where
  "Home = \<lparr> hookState = useInterviewProcessor, pending = [] \<rparr>"

text \<open>The button \<open>Process Another Interview\<close> calls \<open>reset\<close>; the page renders it under this condition.\<close>

definition resetShown :: "('e, 'n) hook \<Rightarrow> bool" where
  "resetShown h \<longleftrightarrow>
     \<not> isLoading (processingState h) \<and> (result h \<noteq> None \<or> error (processingState h) \<noteq> None)"

datatype ('e, 'n) event =
  Submit form
| Tick nat
| Settle nat "('e, 'n) settlement"
| ClickReset

definition step ::
  "(js_string \<Rightarrow> ValidationError list) \<Rightarrow> ('e, 'n) event \<Rightarrow> ('e, 'n) home \<Rightarrow> ('e, 'n) home"
where
  "step validate ev p =
     (case ev of
        Submit f \<Rightarrow>
          (case snd (handleSubmit validate (isLoading (processingState (hookState p))) f) of
             None \<Rightarrow> p
           | Some (text, chosen) \<Rightarrow>
               (let (h, progressInterval, request) =
                      processInterview_begin text (Some chosen) (hookState p)
                in p\<lparr> hookState := h, pending := pending p @ [(progressInterval, request)] \<rparr>))
      | Tick i \<Rightarrow> p\<lparr> hookState := fireInterval i (hookState p) \<rparr>
      | Settle k outcome \<Rightarrow>
          (if k < length (pending p)
           then p\<lparr> hookState :=
                      fst (processInterview_settle (fst (pending p ! k)) outcome (hookState p)),
                    pending := take k (pending p) @ drop (Suc k) (pending p) \<rparr>
           else p)
      | ClickReset \<Rightarrow>
          (if resetShown (hookState p) then p\<lparr> hookState := reset (hookState p) \<rparr> else p))"

text \<open>
  The invariant of the page: at most one call of the API client has not settled, and
  while one has not, \<open>isLoading\<close> is true.
\<close>

definition one_in_flight :: "('e, 'n) home \<Rightarrow> bool" where
  "one_in_flight p \<longleftrightarrow>
     length (pending p) \<le> 1 \<and> (pending p \<noteq> [] \<longrightarrow> isLoading (processingState (hookState p)))"

section \<open>The debounced validation trigger\<close>

text \<open>
  Modelled from the spec: \<open>debounce\<close> of \<open>lib/utils\<close> is not among the sources; the form
  only imports it and wraps the validator with a delay of 300. The spec describes a
  trailing-edge, single-slot timer: a call cancels the pending invocation and schedules
  a new one after the delay, and the wrapped function runs only when that timer comes
  due. Time is counted in the units of the delay. The state is the pending invocation:
  the time at which it is due and its argument. \<open>debounce_call\<close> is a call of the
  debounced function at time \<open>now\<close>.
\<close>

definition debounce_call :: "nat \<Rightarrow> nat \<Rightarrow> 'a \<Rightarrow> (nat \<times> 'a) option \<Rightarrow> (nat \<times> 'a) option" where
  "debounce_call delay now x timer = Some (now + delay, x)"

text \<open>
  Modelled from the spec: time moves on to \<open>now\<close>, and a pending invocation that is due
  runs, with its argument.
\<close>

definition debounce_advance :: "nat \<Rightarrow> (nat \<times> 'a) option \<Rightarrow> (nat \<times> 'a) option \<times> 'a list" where
  "debounce_advance now timer =
     (case timer of
        None \<Rightarrow> (None, [])
      | Some (due, x) \<Rightarrow> if due \<le> now then (None, [x]) else (timer, []))"

text \<open>
  Modelled from the spec: a run of the debounced function. The calls arrive, each at its
  time, then time moves on to \<open>finish\<close>. The result lists the arguments with which the
  wrapped function has run, in order.
\<close>

fun debounce_run :: "nat \<Rightarrow> (nat \<times> 'a) list \<Rightarrow> nat \<Rightarrow> (nat \<times> 'a) option \<Rightarrow> 'a list" where
  "debounce_run delay [] finish timer = snd (debounce_advance finish timer)"
| "debounce_run delay ((t, x) # calls) finish timer =
     (let (timer1, ran) = debounce_advance t timer
      in ran @ debounce_run delay calls finish (debounce_call delay t x timer1))"

text \<open>
  \<open>debouncedValidate\<close> of the form: the validator, debounced by 300. The form keeps the
  debounced function of its first render (\<open>useCallback\<close> with no dependencies), so all
  calls share one timer. The result lists the findings that each execution of the
  validator has stored with \<open>setValidationErrors\<close>.
\<close>

definition debouncedValidate ::
  "(js_string \<Rightarrow> ValidationError list) \<Rightarrow> (nat \<times> js_string) list \<Rightarrow> nat \<Rightarrow> ValidationError list list"
where
  "debouncedValidate validate calls finish =
     map validate (debounce_run 300 calls finish None)"

text \<open>Calls in rapid succession: each arrives before the delay of the one before it has elapsed.\<close>

fun rapid :: "nat \<Rightarrow> (nat \<times> 'a) list \<Rightarrow> bool" where
  "rapid delay [] = True"
| "rapid delay [c] = True"
| "rapid delay ((t1, x1) # (t2, x2) # calls) =
     (t1 \<le> t2 \<and> t2 < t1 + delay \<and> rapid delay ((t2, x2) # calls))"

section \<open>Properties of the hook\<close>

subsection \<open>Auxiliary facts\<close>

lemma lit_Nil: "lit [] = []"
  by (simp add: lit_def)

lemma lit_eq_Nil: "(lit s = []) = (s = [])"
  by (simp add: lit_def)

lemma steps_thresholds: "map step_progress progressSteps = [10, 25, 40, 60, 80, 95]"
  by (simp add: progressSteps_def)

lemma progressTick_frame:
  "progressTick s = s\<lparr> progress := progress (progressTick s), currentTask := currentTask (progressTick s) \<rparr>"
  by (simp add: progressTick_def split: option.split)

lemma progressTick_isLoading: "isLoading (progressTick s) = isLoading s"
  by (simp add: progressTick_def split: option.split)

lemma progressTick_error: "error (progressTick s) = error s"
  by (simp add: progressTick_def split: option.split)

lemma progressTick_first:
  assumes "i < length progressSteps"
    and "progress s < step_progress (progressSteps ! i)"
    and "\<forall>j<i. step_progress (progressSteps ! j) \<le> progress s"
  shows "progressTick s =
           s\<lparr> progress := step_progress (progressSteps ! i), currentTask := task (progressSteps ! i) \<rparr>"
proof -
  have "List.find (\<lambda>step. step_progress step > progress s) progressSteps = Some (progressSteps ! i)"
    unfolding find_Some_iff using assms by (intro exI[of _ i]) (auto simp: not_less)
  then show ?thesis by (simp add: progressTick_def)
qed

lemma progressTick_noop:
  assumes "\<forall>step \<in> set progressSteps. step_progress step \<le> progress s"
  shows "progressTick s = s"
proof -
  have "List.find (\<lambda>step. step_progress step > progress s) progressSteps = None"
    unfolding find_None_iff using assms by (auto simp: not_less)
  then show ?thesis by (simp add: progressTick_def)
qed

lemma progressTick_progress:
  "progress s \<le> progress (progressTick s) \<and> progress (progressTick s) \<le> max (progress s) 95"
  by (simp add: progressTick_def progressSteps_def)

lemma ticks_isLoading: "isLoading ((progressTick ^^ n) s) = isLoading s"
  by (induction n) (simp_all add: progressTick_isLoading)

lemma ticks_error: "error ((progressTick ^^ n) s) = error s"
  by (induction n) (simp_all add: progressTick_error)

lemma ticks_upper: "progress ((progressTick ^^ n) s) \<le> max (progress s) 95"
proof (induction n)
  case 0 show ?case by simp
next
  case (Suc n)
  have "progress (progressTick ((progressTick ^^ n) s)) \<le> max (progress ((progressTick ^^ n) s)) 95"
    using progressTick_progress by blast
  with Suc show ?case by simp
qed

lemma ticks_mono_step: "progress ((progressTick ^^ n) s) \<le> progress ((progressTick ^^ (n + k)) s)"
proof (induction k)
  case 0 show ?case by simp
next
  case (Suc k)
  have "progress ((progressTick ^^ (n + k)) s) \<le> progress (progressTick ((progressTick ^^ (n + k)) s))"
    using progressTick_progress by blast
  with Suc show ?case by simp
qed

lemma fireInterval_frame:
  "result (fireInterval i h) = result h \<and> intervals (fireInterval i h) = intervals h \<and>
   nextInterval (fireInterval i h) = nextInterval h"
  by (simp add: fireInterval_def)

lemma fireInterval_isLoading:
  "isLoading (processingState (fireInterval i h)) = isLoading (processingState h)"
  by (simp add: fireInterval_def progressTick_isLoading)

lemma fireInterval_error:
  "error (processingState (fireInterval i h)) = error (processingState h)"
  by (simp add: fireInterval_def progressTick_error)

lemma fold_fireInterval_isLoading:
  "isLoading (processingState (fold fireInterval is h)) = isLoading (processingState h)"
  by (induction "is" arbitrary: h) (simp_all add: fireInterval_isLoading)

lemma fold_fireInterval_error:
  "error (processingState (fold fireInterval is h)) = error (processingState h)"
  by (induction "is" arbitrary: h) (simp_all add: fireInterval_error)

lemma begin_state:
  "processingState (fst (processInterview_begin t m h)) =
     \<lparr> isLoading = True, progress = 0, currentTask = lit ''Validating transcript...'', error = None \<rparr>"
  by (simp add: processInterview_begin_def setInterval_def Let_def)

lemma begin_interval:
  "fst (snd (processInterview_begin t m h)) = nextInterval h \<and>
   intervals (fst (processInterview_begin t m h)) = nextInterval h # intervals h"
  by (simp add: processInterview_begin_def setInterval_def Let_def)

lemma settle_resolves:
  "processInterview_settle i (Resolves response) h =
     (h\<lparr> intervals := removeAll i (intervals h),
         result := Some \<lparr> summary = res_summary response, highlights = res_highlights response,
                          lowlights = res_lowlights response,
                          key_named_entities = res_key_named_entities response,
                          processing_time = res_processing_time response,
                          model = res_model response \<rparr>,
         processingState := \<lparr> isLoading = False, progress = 100,
                               currentTask = lit ''Complete'', error = None \<rparr> \<rparr>, Fulfilled)"
  by (simp add: processInterview_settle_def clearInterval_def Let_def)

lemma settle_rejects:
  "processInterview_settle i (Rejects msg) h =
     (h\<lparr> processingState := \<lparr> isLoading = False, progress = 0, currentTask = [],
                               error = Some (js_or msg (lit ''An unexpected error occurred'')) \<rparr> \<rparr>,
      Fulfilled)"
  by (simp add: processInterview_settle_def lit_Nil)

lemma settle_rejects_intervals:
  "intervals (fst (processInterview_settle i (Rejects msg) h)) = intervals h"
  by (simp add: settle_rejects)

lemma settle_resolves_intervals:
  "i \<notin> set (intervals (fst (processInterview_settle i (Resolves response) h)))"
  by (simp add: settle_resolves)

lemma fireInterval_live:
  "k \<in> set (intervals h) \<Longrightarrow> processingState (fireInterval k h) = progressTick (processingState h)"
  by (simp add: fireInterval_def)

lemma fireInterval_progress:
  "progress (processingState h) \<le> progress (processingState (fireInterval k h)) \<and>
   progress (processingState (fireInterval k h)) \<le> max (progress (processingState h)) 95"
  using progressTick_progress [of "processingState h"] by (simp add: fireInterval_def)

lemma fold_fireInterval_intervals: "intervals (fold fireInterval ticks h) = intervals h"
  by (induction ticks arbitrary: h) (simp_all add: fireInterval_frame)

lemma fold_fireInterval_live:
  "\<forall>k \<in> set ticks. k \<in> set (intervals h) \<Longrightarrow>
   processingState (fold fireInterval ticks h) = (progressTick ^^ length ticks) (processingState h)"
proof (induction ticks arbitrary: h)
  case Nil
  show ?case by simp
next
  case (Cons k ticks)
  have live: "\<forall>j \<in> set ticks. j \<in> set (intervals (fireInterval k h))"
    using Cons.prems by (simp add: fireInterval_frame)
  have "processingState (fold fireInterval ticks (fireInterval k h)) =
          (progressTick ^^ length ticks) (processingState (fireInterval k h))"
    using live by (rule Cons.IH)
  also have "processingState (fireInterval k h) = progressTick (processingState h)"
    using Cons.prems by (simp add: fireInterval_live)
  finally show ?case by (simp add: funpow_swap1)
qed

lemma fold_fireInterval_mono:
  "progress (processingState h) \<le> progress (processingState (fold fireInterval ticks h))"
proof (induction ticks arbitrary: h)
  case Nil
  show ?case by simp
next
  case (Cons k ticks)
  have "progress (processingState h) \<le> progress (processingState (fireInterval k h))"
    using fireInterval_progress by blast
  also have "\<dots> \<le> progress (processingState (fold fireInterval ticks (fireInterval k h)))"
    by (rule Cons.IH)
  finally show ?case by simp
qed

lemma fold_fireInterval_upper:
  "progress (processingState (fold fireInterval ticks h)) \<le> max (progress (processingState h)) 95"
proof (induction ticks arbitrary: h)
  case Nil
  show ?case by simp
next
  case (Cons k ticks)
  have "progress (processingState (fold fireInterval ticks (fireInterval k h))) \<le>
          max (progress (processingState (fireInterval k h))) 95"
    by (rule Cons.IH)
  moreover have "progress (processingState (fireInterval k h)) \<le> max (progress (processingState h)) 95"
    using fireInterval_progress by blast
  ultimately show ?case by simp
qed

lemma step_Tick: "hookState (step validate (Tick k) p) = fireInterval k (hookState p)"
  by (simp add: step_def)

subsection \<open>Reset\<close>

text \<open>
  Claim C8. From every prior state, \<open>reset()\<close> yields the idle state: the stored result
  is null and the processing state is
  \<open>{ isLoading: false, progress: 0, currentTask: '', error: null }\<close>.
\<close>

theorem reset_idle:
  "result (reset h) = None \<and>
   processingState (reset h) =
     \<lparr> isLoading = False, progress = 0, currentTask = [], error = None \<rparr>"
  by (simp add: reset_def lit_Nil)

subsection \<open>The progress simulator\<close>

text \<open>
  Claim C5. For every processing state, a tick advances \<open>progress\<close> to the first step
  of the fixed sequence 10, 25, 40, 60, 80, 95 whose threshold is strictly greater than
  the current progress, and sets the label of that step; when no step has a greater
  threshold the tick changes nothing. Hence over any number of ticks the progress
  never decreases, and it never exceeds 100 when it starts within the range 0 to 100
  of the data model. This holds of the state updater of the timer callback, and of
  the hook whose timer fires: a tick of a live timer replaces the processing state of
  the hook by the updater's result, the event \<open>Tick\<close> of the page is that tick, a
  sequence of ticks of live timers applies the updater once per tick, and over any
  sequence of ticks the progress of the hook never decreases and stays within 100.
\<close>

theorem tick_advances:
  "(\<forall>i < length progressSteps.
      progress s < step_progress (progressSteps ! i) \<and>
      (\<forall>j<i. step_progress (progressSteps ! j) \<le> progress s) \<longrightarrow>
      progressTick s =
        s\<lparr> progress := step_progress (progressSteps ! i), currentTask := task (progressSteps ! i) \<rparr>) \<and>
   ((\<forall>step \<in> set progressSteps. step_progress step \<le> progress s) \<longrightarrow> progressTick s = s) \<and>
   map step_progress progressSteps = [10, 25, 40, 60, 80, 95] \<and>
   (m \<le> n \<longrightarrow> progress ((progressTick ^^ m) s) \<le> progress ((progressTick ^^ n) s)) \<and>
   (progress s \<le> 100 \<longrightarrow> progress ((progressTick ^^ n) s) \<le> 100) \<and>
   (k \<in> set (intervals h) \<longrightarrow>
      processingState (fireInterval k h) = progressTick (processingState h)) \<and>
   hookState (step validate (Tick k) p) = fireInterval k (hookState p) \<and>
   ((\<forall>t \<in> set ticks. t \<in> set (intervals h)) \<longrightarrow>
      processingState (fold fireInterval ticks h) = (progressTick ^^ length ticks) (processingState h)) \<and>
   progress (processingState (fold fireInterval ticks h)) \<le>
     progress (processingState (fold fireInterval (ticks @ later) h)) \<and>
   (progress (processingState h) \<le> 100 \<longrightarrow>
      progress (processingState (fold fireInterval ticks h)) \<le> 100)"
proof (intro conjI allI impI)
  fix i
  assume "i < length progressSteps"
    and "progress s < step_progress (progressSteps ! i) \<and>
         (\<forall>j<i. step_progress (progressSteps ! j) \<le> progress s)"
  then show "progressTick s =
      s\<lparr> progress := step_progress (progressSteps ! i), currentTask := task (progressSteps ! i) \<rparr>"
    using progressTick_first [of i s] by blast
next
  assume "\<forall>step \<in> set progressSteps. step_progress step \<le> progress s"
  then show "progressTick s = s" by (rule progressTick_noop)
next
  show "map step_progress progressSteps = [10, 25, 40, 60, 80, 95]"
    by (rule steps_thresholds)
next
  assume "m \<le> n"
  then obtain d where "n = m + d" using le_Suc_ex by blast
  then show "progress ((progressTick ^^ m) s) \<le> progress ((progressTick ^^ n) s)"
    using ticks_mono_step [of m s d] by simp
next
  assume "progress s \<le> 100"
  then show "progress ((progressTick ^^ n) s) \<le> 100"
    using ticks_upper [of n s] by simp
next
  assume "k \<in> set (intervals h)"
  then show "processingState (fireInterval k h) = progressTick (processingState h)"
    by (rule fireInterval_live)
next
  show "hookState (step validate (Tick k) p) = fireInterval k (hookState p)"
    by (rule step_Tick)
next
  assume "\<forall>t \<in> set ticks. t \<in> set (intervals h)"
  then show "processingState (fold fireInterval ticks h) =
      (progressTick ^^ length ticks) (processingState h)"
    by (rule fold_fireInterval_live)
next
  show "progress (processingState (fold fireInterval ticks h)) \<le>
      progress (processingState (fold fireInterval (ticks @ later) h))"
    using fold_fireInterval_mono [of "fold fireInterval ticks h" later] by simp
next
  assume "progress (processingState h) \<le> 100"
  then show "progress (processingState (fold fireInterval ticks h)) \<le> 100"
    using fold_fireInterval_upper [of ticks h] by simp
qed

theorem tick_advances_witness:
  "progressTick \<lparr> isLoading = True, progress = 30, currentTask = lit ''Preprocessing text...'', error = None \<rparr> =
     \<lparr> isLoading = True, progress = 40, currentTask = lit ''Analyzing content with AI...'', error = None \<rparr> \<and>
   progressTick \<lparr> isLoading = True, progress = 95, currentTask = lit ''Finalizing results...'', error = None \<rparr> =
     \<lparr> isLoading = True, progress = 95, currentTask = lit ''Finalizing results...'', error = None \<rparr> \<and>
   (1::nat) \<le> 3 \<and>
   progress ((progressTick ^^ 1)
       \<lparr> isLoading = True, progress = 30, currentTask = lit ''Preprocessing text...'', error = None \<rparr>) \<le>
   progress ((progressTick ^^ 3)
       \<lparr> isLoading = True, progress = 30, currentTask = lit ''Preprocessing text...'', error = None \<rparr>) \<and>
   (30::int) \<le> 100 \<and>
   progress ((progressTick ^^ 3)
       \<lparr> isLoading = True, progress = 30, currentTask = lit ''Preprocessing text...'', error = None \<rparr>) \<le> 100 \<and>
   (let h = fst (processInterview_begin (replicate 60 0x61) None (useInterviewProcessor :: (unit, unit) hook))
    in 0 \<in> set (intervals h) \<and>
       processingState (fireInterval 0 h) =
         \<lparr> isLoading = True, progress = 10, currentTask = lit ''Validating transcript...'', error = None \<rparr> \<and>
       processingState (fold fireInterval [0, 0, 0] h) =
         \<lparr> isLoading = True, progress = 40, currentTask = lit ''Analyzing content with AI...'', error = None \<rparr> \<and>
       progress (processingState (fold fireInterval [0] h)) \<le>
         progress (processingState (fold fireInterval [0, 0, 0] h)) \<and>
       progress (processingState h) \<le> 100 \<and>
       progress (processingState (fold fireInterval [0, 0, 0] h)) \<le> 100)"
proof -
  let ?s = "\<lparr> isLoading = True, progress = 30, currentTask = lit ''Preprocessing text...'', error = None \<rparr>"
  let ?z = "\<lparr> isLoading = True, progress = 95, currentTask = lit ''Finalizing results...'', error = None \<rparr>"
  let ?h = "fst (processInterview_begin (replicate 60 0x61) None (useInterviewProcessor :: (unit, unit) hook))"
  let ?b = "\<lparr> isLoading = True, progress = 0, currentTask = lit ''Validating transcript...'', error = None \<rparr>"
  note a = tick_advances [where s = ?s and m = 1 and n = 3 and h = ?h and k = 0 and ticks = "[0, 0, 0]"
      and later = "[]" and p = "Home :: (unit, unit) home" and validate = "\<lambda>text. []"]
  note b = tick_advances [where s = ?z and m = 0 and n = 0 and h = ?h and k = 0 and ticks = "[0]"
      and later = "[0, 0]" and p = "Home :: (unit, unit) home" and validate = "\<lambda>text. []"]
  have i: "(2::nat) < length progressSteps" by (simp add: progressSteps_def)
  have p: "progress ?s < step_progress (progressSteps ! 2) \<and>
           (\<forall>j<2. step_progress (progressSteps ! j) \<le> progress ?s)"
    by (simp add: progressSteps_def less_Suc_eq numeral_2_eq_2)
  have "progressTick ?s =
          ?s\<lparr> progress := step_progress (progressSteps ! 2), currentTask := task (progressSteps ! 2) \<rparr>"
    using a i p by blast
  then have 1: "progressTick ?s =
     \<lparr> isLoading = True, progress = 40, currentTask = lit ''Analyzing content with AI...'', error = None \<rparr>"
    by (simp add: progressSteps_def)
  have "\<forall>step \<in> set progressSteps. step_progress step \<le> progress ?z"
    by (simp add: progressSteps_def)
  then have 2: "progressTick ?z = ?z" using b by blast
  have 3: "progress ((progressTick ^^ 1) ?s) \<le> progress ((progressTick ^^ 3) ?s)"
    using a by simp
  have 4: "progress ((progressTick ^^ 3) ?s) \<le> 100"
    using a by simp
  have st: "processingState ?h = ?b" by (rule begin_state)
  have live: "0 \<in> set (intervals ?h)"
    by (simp add: begin_interval useInterviewProcessor_def)
  have all: "\<forall>t \<in> set [0, 0, 0]. t \<in> set (intervals ?h)"
    using live by simp
  have t1: "progressTick ?b =
      \<lparr> isLoading = True, progress = 10, currentTask = lit ''Validating transcript...'', error = None \<rparr>"
    by (simp add: progressTick_def progressSteps_def)
  have t3: "(progressTick ^^ 3) ?b =
      \<lparr> isLoading = True, progress = 40, currentTask = lit ''Analyzing content with AI...'', error = None \<rparr>"
    by (simp add: numeral_3_eq_3 progressTick_def progressSteps_def)
  have 5: "processingState (fireInterval 0 ?h) =
      \<lparr> isLoading = True, progress = 10, currentTask = lit ''Validating transcript...'', error = None \<rparr>"
    using a live st t1 by simp
  have len: "length [0::nat, 0, 0] = 3" by simp
  have "processingState (fold fireInterval [0, 0, 0] ?h) =
          (progressTick ^^ length [0::nat, 0, 0]) (processingState ?h)"
    using a all by blast
  then have 6: "processingState (fold fireInterval [0, 0, 0] ?h) =
      \<lparr> isLoading = True, progress = 40, currentTask = lit ''Analyzing content with AI...'', error = None \<rparr>"
    by (simp only: len st t3)
  have 7: "progress (processingState (fold fireInterval [0] ?h)) \<le>
      progress (processingState (fold fireInterval [0, 0, 0] ?h))"
    using b by simp
  have 8: "progress (processingState ?h) \<le> 100" by (simp add: st)
  have 9: "progress (processingState (fold fireInterval [0, 0, 0] ?h)) \<le> 100"
    using a 8 by blast
  show ?thesis unfolding Let_def using 1 2 3 4 5 6 7 8 9 live by simp
qed

text \<open>
  Claim C10. A tick changes at most the fields \<open>progress\<close> and \<open>currentTask\<close>; it leaves
  \<open>isLoading\<close> and \<open>error\<close> as they are. So after \<open>processInterview\<close> has started, and
  through any sequence of timer ticks, \<open>isLoading\<close> stays true and \<open>error\<close> stays null.
\<close>

theorem tick_frame:
  "progressTick s = s\<lparr> progress := progress (progressTick s), currentTask := currentTask (progressTick s) \<rparr> \<and>
   isLoading (progressTick s) = isLoading s \<and> error (progressTick s) = error s \<and>
   isLoading ((progressTick ^^ n) s) = isLoading s \<and> error ((progressTick ^^ n) s) = error s \<and>
   isLoading (processingState (fold fireInterval ticks (fst (processInterview_begin t m h)))) = True \<and>
   error (processingState (fold fireInterval ticks (fst (processInterview_begin t m h)))) = None"
  using progressTick_frame [of s]
  by (simp add: progressTick_isLoading progressTick_error ticks_isLoading ticks_error
      fold_fireInterval_isLoading fold_fireInterval_error begin_state)

subsection \<open>The request\<close>

text \<open>
  Claim C9. The request that \<open>processInterview(transcript, model)\<close> hands to the API
  client holds the given transcript; its model is the supplied identifier when one is
  supplied, and \<open>anthropic/claude-3.5-sonnet\<close> otherwise. The source selects with
  \<open>model || default\<close>, so an identifier is supplied when the argument is a non-empty
  string: \<open>undefined\<close> and the empty string both select the default.
\<close>

theorem request_payload:
  "processInterview_begin text model_arg h = (h', i, request) \<Longrightarrow>
   req_transcript request = text \<and>
   (\<forall>m. model_arg = Some m \<and> m \<noteq> [] \<longrightarrow> req_model request = m) \<and>
   (model_arg = None \<or> model_arg = Some [] \<longrightarrow> req_model request = lit ''anthropic/claude-3.5-sonnet'')"
  by (auto simp add: processInterview_begin_def setInterval_def Let_def js_or_def defaultModel_def)

theorem request_payload_witness:
  "(let h = (useInterviewProcessor :: (unit, unit) hook);
        a = snd (snd (processInterview_begin (replicate 60 0x61) (Some (lit ''openai/gpt-4o'')) h));
        b = snd (snd (processInterview_begin (replicate 60 0x61) None h))
    in lit ''openai/gpt-4o'' \<noteq> [] \<and>
       a = \<lparr> req_transcript = replicate 60 0x61, req_model = lit ''openai/gpt-4o'' \<rparr> \<and>
       b = \<lparr> req_transcript = replicate 60 0x61, req_model = lit ''anthropic/claude-3.5-sonnet'' \<rparr>)"
proof -
  let ?h = "useInterviewProcessor :: (unit, unit) hook"
  let ?a = "processInterview_begin (replicate 60 0x61) (Some (lit ''openai/gpt-4o'')) ?h"
  let ?b = "processInterview_begin (replicate 60 0x61) None ?h"
  have ne: "lit ''openai/gpt-4o'' \<noteq> []" by (simp add: lit_def)
  have a: "?a = (fst ?a, fst (snd ?a), snd (snd ?a))" by simp
  have b: "?b = (fst ?b, fst (snd ?b), snd (snd ?b))" by simp
  from request_payload [OF a] ne
  have 1: "req_transcript (snd (snd ?a)) = replicate 60 0x61 \<and> req_model (snd (snd ?a)) = lit ''openai/gpt-4o''"
    by blast
  from request_payload [OF b]
  have 2: "req_transcript (snd (snd ?b)) = replicate 60 0x61 \<and>
           req_model (snd (snd ?b)) = lit ''anthropic/claude-3.5-sonnet''"
    by blast
  from 1 have 3: "snd (snd ?a) = \<lparr> req_transcript = replicate 60 0x61, req_model = lit ''openai/gpt-4o'' \<rparr>"
    by (cases "snd (snd ?a)") simp
  from 2 have 4: "snd (snd ?b) =
      \<lparr> req_transcript = replicate 60 0x61, req_model = lit ''anthropic/claude-3.5-sonnet'' \<rparr>"
    by (cases "snd (snd ?b)") simp
  from ne 3 4 show ?thesis by (simp add: Let_def)
qed

subsection \<open>Settling\<close>

text \<open>
  Claim C3. When the call of the API client resolves, then whatever timer ticks have
  fired since \<open>processInterview\<close> started, the stored result mirrors the fields
  \<open>summary\<close>, \<open>highlights\<close>, \<open>lowlights\<close>, \<open>key_named_entities\<close>, \<open>processing_time\<close> and
  \<open>model\<close> of the response, and the processing state is
  \<open>{ isLoading: false, progress: 100, currentTask: 'Complete', error: null }\<close>.
\<close>

theorem success_state:
  "fst (processInterview_settle (fst (snd (processInterview_begin t m h))) (Resolves response)
          (fold fireInterval ticks (fst (processInterview_begin t m h)))) = h' \<Longrightarrow>
   result h' = Some \<lparr> summary = res_summary response, highlights = res_highlights response,
                      lowlights = res_lowlights response,
                      key_named_entities = res_key_named_entities response,
                      processing_time = res_processing_time response,
                      model = res_model response \<rparr> \<and>
   processingState h' = \<lparr> isLoading = False, progress = 100, currentTask = lit ''Complete'', error = None \<rparr>"
  by (auto simp add: settle_resolves)

theorem success_state_witness:
  "(let h = (useInterviewProcessor :: ((js_string \<times> js_string) list, nat) hook);
        response = \<lparr> res_summary = lit ''ok'', res_highlights = [lit ''a''], res_lowlights = [],
                     res_key_named_entities = [(lit ''name'', lit ''Jane'')],
                     res_processing_time = None, res_model = lit ''m'' \<rparr>;
        h' = fst (processInterview_settle (fst (snd (processInterview_begin (replicate 60 0x61) None h)))
                 (Resolves response)
                 (fold fireInterval [0, 0, 0] (fst (processInterview_begin (replicate 60 0x61) None h))))
    in result h' = Some \<lparr> summary = lit ''ok'', highlights = [lit ''a''], lowlights = [],
                          key_named_entities = [(lit ''name'', lit ''Jane'')],
                          processing_time = None, model = lit ''m'' \<rparr> \<and>
       processingState h' =
         \<lparr> isLoading = False, progress = 100, currentTask = lit ''Complete'', error = None \<rparr>)"
  using success_state [OF refl,
      of "replicate 60 0x61" None "useInterviewProcessor :: ((js_string \<times> js_string) list, nat) hook"
         "\<lparr> res_summary = lit ''ok'', res_highlights = [lit ''a''], res_lowlights = [],
            res_key_named_entities = [(lit ''name'', lit ''Jane'')],
            res_processing_time = None, res_model = lit ''m'' \<rparr>" "[0, 0, 0]"]
  by (simp add: Let_def)

text \<open>
  Claim C2. When the call of the API client rejects, \<open>processInterview\<close> catches the
  rejection and its own promise is fulfilled, never rejected. Afterwards \<open>isLoading\<close>
  is false, \<open>progress\<close> is 0, \<open>currentTask\<close> is the empty string, and \<open>error\<close> is the
  message of the failure, or \<open>An unexpected error occurred\<close> when the failure carries
  no message: the message is missing or is the empty string, which is what an
  \<open>Error\<close> built without a message carries.
\<close>

theorem failure_state:
  "processInterview_settle i (Rejects msg) h = (h', c) \<Longrightarrow>
   c = Fulfilled \<and>
   isLoading (processingState h') = False \<and>
   progress (processingState h') = 0 \<and>
   currentTask (processingState h') = [] \<and>
   (\<forall>m. msg = Some m \<and> m \<noteq> [] \<longrightarrow> error (processingState h') = Some m) \<and>
   (msg = None \<or> msg = Some [] \<longrightarrow>
      error (processingState h') = Some (lit ''An unexpected error occurred''))"
  by (auto simp add: settle_rejects js_or_def)

theorem failure_state_witness:
  "(let h = fst (processInterview_begin (replicate 60 0x61) None (useInterviewProcessor :: (unit, unit) hook));
        r = processInterview_settle 0 (Rejects (Some (lit ''rate limited''))) h;
        g = processInterview_settle 0 (Rejects None) h
    in snd r = Fulfilled \<and>
       processingState (fst r) =
         \<lparr> isLoading = False, progress = 0, currentTask = [], error = Some (lit ''rate limited'') \<rparr> \<and>
       lit ''rate limited'' \<noteq> [] \<and>
       snd g = Fulfilled \<and>
       error (processingState (fst g)) = Some (lit ''An unexpected error occurred''))"
proof -
  let ?h = "fst (processInterview_begin (replicate 60 0x61) None (useInterviewProcessor :: (unit, unit) hook))"
  let ?r = "processInterview_settle 0 (Rejects (Some (lit ''rate limited''))) ?h"
  let ?g = "processInterview_settle 0 (Rejects None) ?h"
  have ne: "lit ''rate limited'' \<noteq> []" by (simp add: lit_def)
  have r: "?r = (fst ?r, snd ?r)" by simp
  have g: "?g = (fst ?g, snd ?g)" by simp
  note a = failure_state [OF r]
  note b = failure_state [OF g]
  from a ne have 1: "snd ?r = Fulfilled \<and> isLoading (processingState (fst ?r)) = False \<and>
      progress (processingState (fst ?r)) = 0 \<and> currentTask (processingState (fst ?r)) = [] \<and>
      error (processingState (fst ?r)) = Some (lit ''rate limited'')"
    by blast
  from b have 2: "snd ?g = Fulfilled \<and>
      error (processingState (fst ?g)) = Some (lit ''An unexpected error occurred'')"
    by blast
  from 1 have "processingState (fst ?r) =
      \<lparr> isLoading = False, progress = 0, currentTask = [], error = Some (lit ''rate limited'') \<rparr>"
    by (cases "processingState (fst ?r)") simp
  with 1 2 ne show ?thesis by (simp add: Let_def)
qed

text \<open>
  Claim C1. The progress timer is to be cancelled whenever the call of the API client
  settles, so that no tick changes the processing state after the terminal state is
  written. On the success path the hook calls \<open>clearInterval\<close>
  (\<open>settle_resolves_intervals\<close>); on the failure path it does not
  (\<open>settle_rejects_intervals\<close>). Evaluated on a call that rejects with the message
  \<open>rate limited\<close>: the timer is still among the live timers after the failure state is
  written, and its next tick moves \<open>progress\<close> from 0 to 10 and sets the label
  \<open>Validating transcript...\<close>.
\<close>

theorem interval_survives_rejection:
  "(let h0 = (useInterviewProcessor :: (unit, unit) hook);
        (h1, i, request) = processInterview_begin (replicate 60 0x61) (Some (lit ''openai/gpt-4o'')) h0;
        (h2, c) = processInterview_settle i (Rejects (Some (lit ''rate limited''))) h1
    in i \<in> set (intervals h2) \<and>
       processingState h2 =
         \<lparr> isLoading = False, progress = 0, currentTask = [], error = Some (lit ''rate limited'') \<rparr> \<and>
       processingState (fireInterval i h2) =
         \<lparr> isLoading = False, progress = 10, currentTask = lit ''Validating transcript...'',
           error = Some (lit ''rate limited'') \<rparr>)"
  by (simp add: useInterviewProcessor_def processInterview_begin_def setInterval_def
      settle_rejects js_or_def fireInterval_def progressTick_def progressSteps_def lit_def)

section \<open>Properties of the form and the page\<close>

lemma handleSubmit_loading: "snd (handleSubmit validate True f) = None"
  by (simp add: handleSubmit_def Let_def)

lemma handleSubmit_call:
  "snd (handleSubmit validate b f) = Some c \<Longrightarrow> \<not> b"
  by (auto simp add: handleSubmit_def Let_def split: if_splits)

lemma step_submit_loading:
  "isLoading (processingState (hookState p)) \<Longrightarrow> step validate (Submit f) p = p"
  by (simp add: step_def handleSubmit_loading)

lemma one_in_flight_Home: "one_in_flight Home"
  by (simp add: one_in_flight_def Home_def)

lemma one_in_flight_step:
  assumes "one_in_flight p"
  shows "one_in_flight (step validate ev p)"
proof (cases ev)
  case (Submit f)
  show ?thesis
  proof (cases "snd (handleSubmit validate (isLoading (processingState (hookState p))) f)")
    case None
    with Submit assms show ?thesis by (simp add: step_def)
  next
    case (Some c)
    then have "\<not> isLoading (processingState (hookState p))" by (rule handleSubmit_call)
    with assms have "pending p = []" by (auto simp add: one_in_flight_def)
    with Submit Some show ?thesis
      by (simp add: step_def one_in_flight_def begin_state split: prod.split)
        (metis begin_state fst_conv ProcessingState.select_convs(1))
  qed
next
  case (Tick i)
  with assms show ?thesis
    by (simp add: step_def one_in_flight_def fireInterval_isLoading)
next
  case (Settle k outcome)
  with assms show ?thesis
    by (cases "pending p") (auto simp add: step_def one_in_flight_def)
next
  case ClickReset
  with assms show ?thesis
    by (auto simp add: step_def one_in_flight_def resetShown_def)
qed

lemma one_in_flight_fold:
  "one_in_flight p \<Longrightarrow> one_in_flight (fold (step validate) evs p)"
  by (induction evs arbitrary: p) (simp_all add: one_in_flight_step)

lemma is_whitespace_a: "\<not> is_whitespace 0x61"
  by (simp add: is_whitespace_def)

lemma is_whitespace_space: "is_whitespace 0x20"
  by (simp add: is_whitespace_def)

lemma whitespace_only_replicate: "whitespace_only (replicate n c) = (n = 0 \<or> is_whitespace c)"
  by (auto simp add: whitespace_only_def list_all_iff)

lemma debounce_run_rapid:
  "calls \<noteq> [] \<Longrightarrow> rapid d calls \<Longrightarrow> fst (last calls) + d \<le> finish \<Longrightarrow>
   (\<forall>due y. timer = Some (due, y) \<longrightarrow> fst (hd calls) < due) \<Longrightarrow>
   debounce_run d calls finish timer = [snd (last calls)]"
proof (induction d calls arbitrary: timer rule: rapid.induct)
  case (1 delay)
  then show ?case by simp
next
  case (2 delay c)
  then show ?case
    by (cases c) (auto simp add: debounce_advance_def debounce_call_def split: option.splits)
next
  case (3 delay t1 x1 t2 x2 calls)
  have adv: "debounce_advance t1 timer = (timer, [])"
    using 3(5) by (auto simp add: debounce_advance_def split: option.splits)
  have "debounce_run delay ((t2, x2) # calls) finish (debounce_call delay t1 x1 timer) =
          [snd (last ((t2, x2) # calls))]"
    using 3(3,4) by (intro 3(1)) (auto simp add: debounce_call_def)
  with adv show ?case by simp
qed

lemma debounce_run_rapid_early:
  "calls \<noteq> [] \<Longrightarrow> rapid d calls \<Longrightarrow> finish < fst (last calls) + d \<Longrightarrow>
   (\<forall>due y. timer = Some (due, y) \<longrightarrow> fst (hd calls) < due) \<Longrightarrow>
   debounce_run d calls finish timer = []"
proof (induction d calls arbitrary: timer rule: rapid.induct)
  case (1 delay)
  then show ?case by simp
next
  case (2 delay c)
  then show ?case
    by (cases c) (auto simp add: debounce_advance_def debounce_call_def split: option.splits)
next
  case (3 delay t1 x1 t2 x2 calls)
  have adv: "debounce_advance t1 timer = (timer, [])"
    using 3(5) by (auto simp add: debounce_advance_def split: option.splits)
  have "debounce_run delay ((t2, x2) # calls) finish (debounce_call delay t1 x1 timer) = []"
    using 3(3,4) by (intro 3(1)) (auto simp add: debounce_call_def)
  with adv show ?case by simp
qed

text \<open>
  Claim C6. In every state in which a submission is in flight (\<open>isLoading\<close> is true),
  a submit attempt is rejected on the caller's side: \<open>handleSubmit\<close> does not call
  \<open>onSubmit\<close>, the submit button is disabled, and the attempt leaves the page as it is.
  So, whatever the user and the timers do, at most one submission is in flight at any
  time.
\<close>

theorem submit_gate:
  "(isLoading (processingState (hookState p)) \<longrightarrow>
      snd (handleSubmit validate (isLoading (processingState (hookState p))) f) = None \<and>
      submitDisabled (isLoading (processingState (hookState p))) f \<and>
      step validate (Submit f) p = p) \<and>
   length (pending (fold (step validate) evs Home)) \<le> 1"
  using one_in_flight_fold [OF one_in_flight_Home, of validate evs]
  by (simp add: handleSubmit_loading submitDisabled_def step_submit_loading one_in_flight_def)

theorem submit_gate_witness:
  "(let v = validateTranscript (lit ''Transcript is too short'') (lit ''Transcript is too long'');
        f = \<lparr> transcript = replicate 60 0x61, selectedModel = lit ''openai/gpt-4o'',
              validationErrors = [], isValidating = False, hasInteracted = True \<rparr>;
        p = step v (Submit f) (Home :: (unit, unit) home)
    in isLoading (processingState (hookState p)) \<and>
       length (pending p) = 1 \<and>
       snd (handleSubmit v (isLoading (processingState (hookState p))) f) = None \<and>
       step v (Submit f) p = p \<and>
       length (pending (fold (step v) [Submit f, Tick 0, Submit f] Home)) \<le> 1)"
proof -
  let ?v = "validateTranscript (lit ''Transcript is too short'') (lit ''Transcript is too long'')"
  let ?f = "\<lparr> transcript = replicate 60 0x61, selectedModel = lit ''openai/gpt-4o'',
              validationErrors = [], isValidating = False, hasInteracted = True \<rparr>"
  let ?p = "step ?v (Submit ?f) (Home :: (unit, unit) home)"
  have v: "?v (replicate 60 0x61) = []"
    by (simp add: validateTranscript_def whitespace_only_replicate is_whitespace_a)
  have call: "snd (handleSubmit ?v False ?f) = Some (replicate 60 0x61, lit ''openai/gpt-4o'')"
    using v by (simp add: handleSubmit_def Let_def)
  have p: "?p = \<lparr> hookState = fst (processInterview_begin (replicate 60 0x61) (Some (lit ''openai/gpt-4o''))
                                        useInterviewProcessor),
                   pending = [snd (processInterview_begin (replicate 60 0x61) (Some (lit ''openai/gpt-4o''))
                                        (useInterviewProcessor :: (unit, unit) hook))] \<rparr>"
    using call by (simp add: step_def Home_def useInterviewProcessor_def split: prod.split)
  have l: "isLoading (processingState (hookState ?p))"
    by (simp add: p begin_state)
  have n: "length (pending ?p) = 1"
    by (simp add: p)
  from submit_gate [of ?p ?v ?f "[Submit ?f, Tick 0, Submit ?f]"] l n
  show ?thesis unfolding Let_def by blast
qed

text \<open>
  Claim C4. For every transcript text: empty or whitespace-only text yields the finding
  \<open>Transcript is required\<close>; a length below 50 yields the "too short" finding; a length
  above 50,000 yields the "too long" finding; text with content (neither empty nor
  whitespace-only) and a length from 50 to 50,000 yields no finding. The rules are
  evaluated independently, none cuts another short: each rule that is violated
  contributes one finding. The validator is a function of the text alone.
\<close>

theorem validateTranscript_rules:
  "(text = [] \<or> whitespace_only text \<longrightarrow>
      finding (lit ''Transcript is required'') \<in> set (validateTranscript tooShort tooLong text)) \<and>
   (length text < 50 \<longrightarrow> finding tooShort \<in> set (validateTranscript tooShort tooLong text)) \<and>
   (length text > 50000 \<longrightarrow> finding tooLong \<in> set (validateTranscript tooShort tooLong text)) \<and>
   (text \<noteq> [] \<and> \<not> whitespace_only text \<and> 50 \<le> length text \<and> length text \<le> 50000 \<longrightarrow>
      validateTranscript tooShort tooLong text = []) \<and>
   length (validateTranscript tooShort tooLong text) =
     of_bool (text = [] \<or> whitespace_only text) + of_bool (length text < 50) +
     of_bool (length text > 50000)"
  by (simp add: validateTranscript_def)

theorem validateTranscript_rules_witness:
  "validateTranscript (lit ''Transcript is too short'') (lit ''Transcript is too long'') [] =
     [finding (lit ''Transcript is required''), finding (lit ''Transcript is too short'')] \<and>
   validateTranscript (lit ''Transcript is too short'') (lit ''Transcript is too long'') (replicate 60 0x20) =
     [finding (lit ''Transcript is required'')] \<and>
   validateTranscript (lit ''Transcript is too short'') (lit ''Transcript is too long'') (replicate 49 0x61) =
     [finding (lit ''Transcript is too short'')] \<and>
   validateTranscript (lit ''Transcript is too short'') (lit ''Transcript is too long'') (replicate 50001 0x61) =
     [finding (lit ''Transcript is too long'')] \<and>
   validateTranscript (lit ''Transcript is too short'') (lit ''Transcript is too long'') (replicate 50 0x61) = [] \<and>
   validateTranscript (lit ''Transcript is too short'') (lit ''Transcript is too long'') (replicate 50000 0x61) = []"
proof -
  let ?v = "validateTranscript (lit ''Transcript is too short'') (lit ''Transcript is too long'')"
  let ?S = "lit ''Transcript is too short''"
  let ?L = "lit ''Transcript is too long''"
  have w: "whitespace_only (replicate 60 0x20)" "\<not> whitespace_only (replicate 49 0x61)"
    "\<not> whitespace_only (replicate 50001 0x61)" "\<not> whitespace_only (replicate 50 0x61)"
    "\<not> whitespace_only (replicate 50000 0x61)"
    by (simp_all add: whitespace_only_replicate is_whitespace_a is_whitespace_space)
  have single: "\<And>xs x. x \<in> set xs \<Longrightarrow> length xs = 1 \<Longrightarrow> xs = [x]"
    by (metis length_0_conv length_Suc_conv One_nat_def empty_iff insert_iff list.simps(15) set_empty)
  have 1: "?v [] = [finding (lit ''Transcript is required''), finding ?S]"
    by (simp add: validateTranscript_def)
  have 2: "?v (replicate 60 0x20) = [finding (lit ''Transcript is required'')]"
    using validateTranscript_rules [of "replicate 60 0x20" ?S ?L] w by (intro single) simp_all
  have 3: "?v (replicate 49 0x61) = [finding ?S]"
    using validateTranscript_rules [of "replicate 49 0x61" ?S ?L] w by (intro single) simp_all
  have 4: "?v (replicate 50001 0x61) = [finding ?L]"
    using validateTranscript_rules [of "replicate 50001 0x61" ?S ?L] w by (intro single) simp_all
  have 5: "?v (replicate 50 0x61) = []"
    using validateTranscript_rules [of "replicate 50 0x61" ?S ?L] w by simp
  have 6: "?v (replicate 50000 0x61) = []"
    using validateTranscript_rules [of "replicate 50000 0x61" ?S ?L] w by simp
  show ?thesis using 1 2 3 4 5 6 by blast
qed

text \<open>
  Claim C7. For every non-empty sequence of calls of the debounced validation trigger in
  which each call arrives before the delay of 300 after the previous one has elapsed,
  the validator runs exactly once, on the text of the last call; the calls before it
  are discarded. It runs at the trailing edge: not at all until 300 after the last
  call, once from then on.
\<close>

theorem debounce_last_call:
  "calls \<noteq> [] \<Longrightarrow> rapid 300 calls \<Longrightarrow>
   debounce_run 300 calls finish None =
     (if fst (last calls) + 300 \<le> finish then [snd (last calls)] else []) \<and>
   debouncedValidate validate calls finish =
     (if fst (last calls) + 300 \<le> finish then [validate (snd (last calls))] else [])"
  by (simp add: debouncedValidate_def debounce_run_rapid debounce_run_rapid_early)

theorem debounce_last_call_witness:
  "rapid 300 [(0, lit ''a''), (100, lit ''ab''), (350, lit ''abc'')] \<and>
   debounce_run 300 [(0, lit ''a''), (100, lit ''ab''), (350, lit ''abc'')] 649 None = [] \<and>
   debounce_run 300 [(0, lit ''a''), (100, lit ''ab''), (350, lit ''abc'')] 650 None = [lit ''abc''] \<and>
   debouncedValidate (validateTranscript (lit ''Transcript is too short'') (lit ''Transcript is too long''))
       [(0, lit ''a''), (100, lit ''ab''), (350, lit ''abc'')] 650 =
     [validateTranscript (lit ''Transcript is too short'') (lit ''Transcript is too long'') (lit ''abc'')]"
proof -
  let ?calls = "[(0::nat, lit ''a''), (100, lit ''ab''), (350, lit ''abc'')]"
  let ?v = "validateTranscript (lit ''Transcript is too short'') (lit ''Transcript is too long'')"
  have r: "rapid 300 ?calls" by simp
  have n: "?calls \<noteq> []" by simp
  from debounce_last_call [OF n r, of 649 ?v] debounce_last_call [OF n r, of 650 ?v] r
  show ?thesis by simp
qed

end
